theory Spec2Isabelle
  imports Complex_Main "HOL-Library.Multiset" "HOL-Library.Product_Lexorder"
begin

section \<open>The watched-interval tracker of \<open>src/hooks/useVideoProgress.ts\<close>\<close>

text \<open>
  The hook \<open>useVideoProgress\<close> keeps its state in React refs and React state variables and
  mutates it from the playback surface's event handlers. Here the whole of that state is one
  record and every handler takes the record and returns the updated one. The prop
  \<open>duration\<close> and the clock (\<open>Date.now()\<close>) are parameters. \<open>calculateProgress\<close> takes the
  \<open>skippedAhead\<close> of its closure as a parameter; a handler passes it the \<open>skippedAhead\<close> of
  the state in which the handler is entered.

  JavaScript numbers are modelled as \<open>real\<close>: comparisons, \<open>Math.min\<close>, \<open>Math.max\<close> and
  \<open>Math.abs\<close> are exact on doubles, while \<open>+\<close>, \<open>-\<close>, \<open>*\<close> and \<open>/\<close> are taken without rounding.
  A \<open>duration\<close> that is \<open>undefined\<close> or \<open>NaN\<close> is \<open>None\<close>; timestamps are integer
  milliseconds.
\<close>

subsection \<open>Data (\<open>src/services/api.ts\<close>, \<open>src/hooks/useVideoProgress.ts\<close>)\<close>

text \<open>\<open>IInterval\<close>; the field \<open>end\<close> is written \<open>end'\<close>.\<close>

record IInterval =
  start :: real
  end' :: real

record IProgress =
  userId :: string
  videoId :: string
  intervals :: "IInterval list"
  lastPosition :: real
  totalWatched :: real
  lastWatchedAt :: int

text \<open>
  \<open>LocalStorageProgress\<close>: the fields \<open>lastPosition\<close>, \<open>totalWatched\<close>, \<open>intervals\<close>,
  \<open>timestamp\<close>, \<open>isCompleted\<close> of the source, prefixed with \<open>ls_\<close> to keep them apart from
  those of \<open>IProgress\<close> and of the hook's state.
\<close>

record LocalStorageProgress =
  ls_lastPosition :: real
  ls_totalWatched :: real
  ls_intervals :: "IInterval list"
  ls_timestamp :: int
  ls_isCompleted :: bool

text \<open>
  The item stored under the key of this user and video, as \<open>loadProgress\<close> sees it. The
  code tests the truthiness of what \<open>getItem\<close> returns, so a missing item and an empty
  string are both \<open>None\<close>. \<open>Malformed\<close> is a non-empty string that \<open>JSON.parse\<close> rejects.
  \<open>Parsed r\<close> is the serialisation of a \<open>LocalStorageProgress\<close> with its five fields, as
  \<open>saveToLocalStorage\<close> writes it. A string that parses to a value of another shape (such
  as \<open>{}\<close>) is not represented: on it the code stores \<open>undefined\<close> in the refs, which
  no value of the state record below stands for.
\<close>

datatype stored = Malformed | Parsed LocalStorageProgress

text \<open>
  The calls that leave the hook, in the order in which they are made:
  \<open>localStorage.setItem\<close>, \<open>updateProgress\<close> (the POST to the remote store) and
  \<open>emitProgressUpdate\<close>.
\<close>

datatype effect =
    LocalWrite LocalStorageProgress
  | RemoteWrite IInterval real
  | Emit IProgress

text \<open>
  The refs (\<open>...Ref\<close>) and state variables of the hook, the local-storage item of this user
  and video, and the trace of outgoing calls. A state variable holds the value of the last
  \<open>set...\<close> call, which the closures of the next render read.

  \<open>serverProgress\<close> holds the record as the remote store sent it. In the source the array
  \<open>serverData.intervals\<close> is shared with \<open>intervalsRef.current\<close> after line 199, so later
  pushes also show in \<open>serverProgress.intervals\<close>; the hook neither reads \<open>serverProgress\<close>
  nor returns it, and this sharing is not modelled.
\<close>

record tracker =
  serverProgress :: "IProgress option"
  localProgress :: real
  isLoading :: bool
  error :: "string option"
  skippedAhead :: bool
  isInitialized :: bool
  isCompleted :: bool
  currentIntervalRef :: "IInterval option"
  lastUpdateTimeRef :: int
  lastUIUpdateTimeRef :: int
  isPlayingRef :: bool
  lastKnownPositionRef :: real
  intervalsRef :: "IInterval list"
  totalWatchedRef :: real
  wasFullyWatchedRef :: bool
  localStorage :: "stored option"
  effects :: "effect list"

subsection \<open>Constants\<close>

definition PROGRESS_UPDATE_INTERVAL :: int where
  "PROGRESS_UPDATE_INTERVAL = 5000"

definition UI_UPDATE_INTERVAL :: int where
  "UI_UPDATE_INTERVAL = 1000"

definition MINIMUM_WATCH_TIME :: real where
  "MINIMUM_WATCH_TIME = 1"

definition SKIP_THRESHOLD :: real where
  "SKIP_THRESHOLD = 10"

subsection \<open>\<open>calculateProgress\<close>\<close>

text \<open>JavaScript's \<open>!duration\<close> is true for \<open>0\<close>, \<open>NaN\<close> and \<open>undefined\<close>.\<close>

definition truthy :: "real option \<Rightarrow> bool" where
  "truthy duration = (case duration of None \<Rightarrow> False | Some d \<Rightarrow> d \<noteq> 0)"

text \<open>The predicate of \<open>intervalsRef.current.filter\<close> (lines 64--71).\<close>

definition validInterval :: "real \<Rightarrow> IInterval \<Rightarrow> bool" where
  "validInterval duration interval =
     (if end' interval \<le> start interval then False
      else if start interval \<ge> duration then False
      else if end' interval - start interval < MINIMUM_WATCH_TIME then False
      else if end' interval - start interval > duration then False
      else True)"

text \<open>
  One iteration of the loop over the sorted valid intervals (lines 78--95): the interval is
  clamped, then pushed, or merged into the last merged interval.
\<close>

definition mergeStep :: "real \<Rightarrow> IInterval list \<Rightarrow> IInterval \<Rightarrow> IInterval list" where
  "mergeStep duration merged interval =
     (let clampedInterval =
            \<lparr>start = max 0 (start interval), end' = min duration (end' interval)\<rparr>
      in if merged = [] then merged @ [clampedInterval]
         else let lastInterval = last merged
              in if start clampedInterval \<le> end' lastInterval + 0.1
                 then butlast merged @
                        [lastInterval\<lparr>end' := max (end' lastInterval) (end' clampedInterval)\<rparr>]
                 else merged @ [clampedInterval])"

text \<open>
  The filter, the stable sort by \<open>start\<close> and the loop: the value of the local
  \<open>mergedIntervals\<close> after line 95.
\<close>

definition mergedIntervals :: "real \<Rightarrow> IInterval list \<Rightarrow> IInterval list" where
  "mergedIntervals duration raw =
     foldl (mergeStep duration) [] (sort_key start (filter (validInterval duration) raw))"

text \<open>The \<open>reduce\<close> of lines 98--99 and the percentage of line 102.\<close>

definition totalWatchedOf :: "IInterval list \<Rightarrow> real" where
  "totalWatchedOf merged = foldl (\<lambda>total interval. total + (end' interval - start interval)) 0 merged"

definition percentageOf :: "real \<Rightarrow> IInterval list \<Rightarrow> real" where
  "percentageOf duration raw =
     min ((totalWatchedOf (mergedIntervals duration raw) / duration) * 100) 100"

text \<open>
  \<open>calculateProgress\<close> closes over \<open>duration\<close> and \<open>skippedAhead\<close>; it returns the percentage
  and writes \<open>totalWatchedRef\<close>, \<open>wasFullyWatchedRef\<close> and the state variable \<open>isCompleted\<close>.
\<close>

definition calculateProgress :: "real option \<Rightarrow> bool \<Rightarrow> tracker \<Rightarrow> real \<times> tracker" where
  "calculateProgress duration skipped st =
     (if \<not> truthy duration then (0, st)
      else if wasFullyWatchedRef st then (100, st)
      else let d = the duration;
               st1 = st\<lparr>totalWatchedRef := totalWatchedOf (mergedIntervals d (intervalsRef st))\<rparr>;
               percentage = percentageOf d (intervalsRef st)
           in if percentage \<ge> 99.5 \<and> \<not> skipped
              then (100, st1\<lparr>wasFullyWatchedRef := True, isCompleted := True\<rparr>)
              else (percentage, st1))"

subsection \<open>\<open>saveToLocalStorage\<close>, \<open>resetProgress\<close>\<close>

definition saveToLocalStorage :: "int \<Rightarrow> tracker \<Rightarrow> tracker" where
  "saveToLocalStorage now st =
     (let data = \<lparr>ls_lastPosition = lastKnownPositionRef st,
                  ls_totalWatched = totalWatchedRef st,
                  ls_intervals = intervalsRef st,
                  ls_timestamp = now,
                  ls_isCompleted = wasFullyWatchedRef st\<rparr>
      in st\<lparr>localStorage := Some (Parsed data), effects := effects st @ [LocalWrite data]\<rparr>)"

definition resetProgress :: "int \<Rightarrow> tracker \<Rightarrow> tracker" where
  "resetProgress now st =
     (if wasFullyWatchedRef st then st
      else saveToLocalStorage now
             (st\<lparr>intervalsRef := [], currentIntervalRef := None, totalWatchedRef := 0,
                 lastKnownPositionRef := 0, localProgress := 0, skippedAhead := False\<rparr>))"

subsection \<open>\<open>loadProgress\<close>\<close>

text \<open>
  The synchronous part of \<open>loadProgress\<close> (lines 162--188) reads the cached item; the
  continuation of \<open>getProgress\<close> (lines 192--212) runs when the remote store has answered
  (\<open>Some serverData\<close>) or the request has failed (\<open>None\<close>), with the \<open>localData\<close> that the
  synchronous part read. In the continuation \<open>JSON.parse(localData)\<close> is evaluated only when
  \<open>localData\<close> is present and \<open>wasFullyWatchedRef.current\<close> is false; on a malformed item it
  throws, and the \<open>catch\<close> handler of the promise runs.
\<close>

definition loadProgress_local :: "real option \<Rightarrow> bool \<Rightarrow> tracker \<Rightarrow> tracker" where
  "loadProgress_local duration skipped st =
     (let st1 = st\<lparr>isLoading := True, isInitialized := False\<rparr>
      in case localStorage st1 of
           None \<Rightarrow> st1
         | Some Malformed \<Rightarrow> st1\<lparr>error := Some ''Failed to load saved progress''\<rparr>
         | Some (Parsed parsed) \<Rightarrow>
             (let st2 = st1\<lparr>lastKnownPositionRef := ls_lastPosition parsed,
                            intervalsRef := ls_intervals parsed,
                            wasFullyWatchedRef := ls_isCompleted parsed,
                            isCompleted := ls_isCompleted parsed\<rparr>
              in if ls_isCompleted parsed then st2\<lparr>localProgress := 100\<rparr>
                 else (let (calculatedProgress, st3) = calculateProgress duration skipped st2
                       in st3\<lparr>localProgress := calculatedProgress\<rparr>)))"

definition useServerData :: "real option \<Rightarrow> bool \<Rightarrow> IProgress \<Rightarrow> tracker \<Rightarrow> tracker" where
  "useServerData duration skipped serverData st =
     (let st1 = st\<lparr>lastKnownPositionRef := lastPosition serverData,
                    intervalsRef := intervals serverData\<rparr>;
          (calculatedProgress, st2) = calculateProgress duration skipped st1
      in st2\<lparr>localProgress := calculatedProgress\<rparr>)"

definition loadProgress_server ::
  "real option \<Rightarrow> bool \<Rightarrow> stored option \<Rightarrow> IProgress option \<Rightarrow> tracker \<Rightarrow> tracker" where
  "loadProgress_server duration skipped localData response st =
     (let st' =
        (case response of
           None \<Rightarrow> st\<lparr>error := Some ''Failed to load progress from server''\<rparr>
         | Some serverData \<Rightarrow>
             (let st1 = st\<lparr>serverProgress := Some serverData, error := None\<rparr>
              in case localData of
                   None \<Rightarrow> useServerData duration skipped serverData st1
                 | Some item \<Rightarrow>
                     if wasFullyWatchedRef st1 then st1
                     else (case item of
                             Malformed \<Rightarrow> st1\<lparr>error := Some ''Failed to load progress from server''\<rparr>
                           | Parsed parsed \<Rightarrow>
                               if lastWatchedAt serverData > ls_timestamp parsed
                               then useServerData duration skipped serverData st1
                               else st1)))
      in st'\<lparr>isLoading := False, isInitialized := True\<rparr>)"

text \<open>Session start with no playback event between the two parts.\<close>

definition loadProgress :: "real option \<Rightarrow> bool \<Rightarrow> IProgress option \<Rightarrow> tracker \<Rightarrow> tracker" where
  "loadProgress duration skipped response st =
     loadProgress_server duration skipped (localStorage st) response
       (loadProgress_local duration skipped st)"

subsection \<open>\<open>handlePlay\<close>, \<open>handlePause\<close>\<close>

definition handlePlay :: "int \<Rightarrow> real \<Rightarrow> tracker \<Rightarrow> tracker" where
  "handlePlay now currentTime st =
     (let st1 = st\<lparr>isPlayingRef := True\<rparr>;
          st2 = (if currentTime = 0 \<and> lastKnownPositionRef st1 > 0 \<and> \<not> wasFullyWatchedRef st1
                 then resetProgress now st1 else st1)
      in st2\<lparr>currentIntervalRef := Some \<lparr>start = currentTime, end' = currentTime\<rparr>\<rparr>)"

definition handlePause :: "real option \<Rightarrow> int \<Rightarrow> real \<Rightarrow> tracker \<Rightarrow> tracker" where
  "handlePause duration now currentTime st =
     (let st1 = st\<lparr>isPlayingRef := False\<rparr>
      in case currentIntervalRef st1 of
           None \<Rightarrow> st1
         | Some current \<Rightarrow>
             (let closed = current\<lparr>end' := currentTime\<rparr>;
                  st2 = (if end' closed - start closed \<ge> MINIMUM_WATCH_TIME
                         then (let st3 = st1\<lparr>intervalsRef := intervalsRef st1 @ [closed]\<rparr>;
                                   (newProgress, st4) =
                                      calculateProgress duration (skippedAhead st) st3
                               in saveToLocalStorage now (st4\<lparr>localProgress := newProgress\<rparr>))
                         else st1)
              in st2\<lparr>currentIntervalRef := None\<rparr>))"

subsection \<open>\<open>saveProgress\<close>\<close>

text \<open>
  \<open>saveProgress\<close> is \<open>async\<close>. Up to its \<open>await\<close> it runs inside the caller: it returns when
  there is no open interval and calls \<open>updateProgress\<close> otherwise. The rest (lines 269--287)
  runs when the remote store has answered (\<open>Some progress\<close>) or the request has failed
  (\<open>None\<close>), on the state of that moment.
\<close>

definition saveProgress :: "real \<Rightarrow> tracker \<Rightarrow> tracker" where
  "saveProgress currentTime st =
     (case currentIntervalRef st of
        None \<Rightarrow> st
      | Some current \<Rightarrow> st\<lparr>effects := effects st @ [RemoteWrite current currentTime]\<rparr>)"

definition saveProgress_settled :: "IProgress option \<Rightarrow> int \<Rightarrow> tracker \<Rightarrow> tracker" where
  "saveProgress_settled response now st =
     (case response of
        Some progress \<Rightarrow>
          (let st1 = saveToLocalStorage now (st\<lparr>serverProgress := Some progress, error := None\<rparr>)
           in st1\<lparr>effects := effects st1 @ [Emit progress]\<rparr>)
      | None \<Rightarrow> st\<lparr>error := Some ''Failed to save progress''\<rparr>)"

subsection \<open>\<open>handleTimeUpdate\<close>\<close>

text \<open>
  The handler reads \<open>skippedAhead\<close> through the \<open>calculateProgress\<close> of its render, so a
  \<open>setSkippedAhead(true)\<close> of this call is not seen by the \<open>calculateProgress\<close> calls of this
  call.
\<close>

text \<open>
  The body of the handler is given in its four parts: the update of the open interval
  (lines 298--306, \<open>extendCurrent\<close>; \<open>extended\<close> is the open interval after it), the skip
  check (lines 308--321, \<open>checkSkip\<close>), the body of the UI branch (lines 325--327,
  \<open>uiTick\<close>) and the body of the save branch (lines 332--346, \<open>saveTick\<close>).
\<close>

definition extended :: "real \<Rightarrow> tracker \<Rightarrow> IInterval" where
  "extended currentTime st =
     (case currentIntervalRef st of
        Some current \<Rightarrow> current\<lparr>end' := currentTime\<rparr>
      | None \<Rightarrow> \<lparr>start = currentTime, end' = currentTime\<rparr>)"

definition extendCurrent :: "real \<Rightarrow> tracker \<Rightarrow> tracker" where
  "extendCurrent currentTime st = st\<lparr>currentIntervalRef := Some (extended currentTime st)\<rparr>"

definition checkSkip :: "real \<Rightarrow> tracker \<Rightarrow> tracker" where
  "checkSkip currentTime st =
     (let timeDiff = abs (currentTime - lastKnownPositionRef st)
      in if timeDiff > SKIP_THRESHOLD
         then (case currentIntervalRef st of
                 Some current \<Rightarrow>
                   st\<lparr>intervalsRef := intervalsRef st @ [current],
                      currentIntervalRef := Some \<lparr>start = currentTime, end' = currentTime\<rparr>\<rparr>
               | None \<Rightarrow> st)\<lparr>skippedAhead := True\<rparr>
         else st)"

definition uiTick :: "real option \<Rightarrow> bool \<Rightarrow> int \<Rightarrow> tracker \<Rightarrow> tracker" where
  "uiTick duration skipped now st =
     (let (newProgress, st1) = calculateProgress duration skipped st
      in st1\<lparr>localProgress := newProgress, lastUIUpdateTimeRef := now\<rparr>)"

definition saveTick :: "real option \<Rightarrow> bool \<Rightarrow> int \<Rightarrow> real \<Rightarrow> tracker \<Rightarrow> tracker" where
  "saveTick duration skipped now currentTime st =
     (let st1 = (case currentIntervalRef st of
                   Some current \<Rightarrow>
                     if end' current - start current \<ge> MINIMUM_WATCH_TIME
                     then st\<lparr>intervalsRef := intervalsRef st @ [current],
                             currentIntervalRef := Some \<lparr>start = currentTime, end' = currentTime\<rparr>\<rparr>
                     else st
                 | None \<Rightarrow> st);
          (newProgress, st2) = calculateProgress duration skipped st1;
          st3 = saveProgress currentTime (st2\<lparr>localProgress := newProgress\<rparr>)
      in st3\<lparr>lastUpdateTimeRef := now\<rparr>)"

definition handleTimeUpdate :: "real option \<Rightarrow> int \<Rightarrow> real \<Rightarrow> tracker \<Rightarrow> tracker" where
  "handleTimeUpdate duration now currentTime st =
     (if \<not> isPlayingRef st \<or> \<not> truthy duration then st
      else let timeSinceLastUpdate = now - lastUpdateTimeRef st;
               timeSinceLastUIUpdate = now - lastUIUpdateTimeRef st;
               st1 = extendCurrent currentTime st;
               st2 = checkSkip currentTime st1;
               st3 = (if timeSinceLastUIUpdate \<ge> UI_UPDATE_INTERVAL
                      then uiTick duration (skippedAhead st) now st2 else st2);
               st4 = (if timeSinceLastUpdate \<ge> PROGRESS_UPDATE_INTERVAL
                      then saveTick duration (skippedAhead st) now currentTime st3 else st3)
           in st4\<lparr>lastKnownPositionRef := currentTime\<rparr>)"

subsection \<open>The events of a session\<close>

text \<open>
  Everything that runs on the state of the hook: the handlers it returns (\<open>handlePlay\<close>,
  \<open>handlePause\<close>, \<open>handleTimeUpdate\<close>, \<open>resetProgress\<close>), the continuation of
  \<open>saveProgress\<close>, the two parts of \<open>loadProgress\<close> (the effect runs again whenever
  \<open>calculateProgress\<close> changes, line 222) and \<open>calculateProgress\<close> itself, each with the
  closure variables and the clock of the call. \<open>run\<close> applies a sequence of them in order.
\<close>

datatype event =
    Play int real
  | Pause "real option" int real
  | TimeUpdate "real option" int real
  | Reset int
  | SaveSettled "IProgress option" int
  | LoadLocal "real option" bool
  | LoadServer "real option" bool "stored option" "IProgress option"
  | Calculate "real option" bool

fun step :: "tracker \<Rightarrow> event \<Rightarrow> tracker" where
  "step st (Play now currentTime) = handlePlay now currentTime st"
| "step st (Pause duration now currentTime) = handlePause duration now currentTime st"
| "step st (TimeUpdate duration now currentTime) = handleTimeUpdate duration now currentTime st"
| "step st (Reset now) = resetProgress now st"
| "step st (SaveSettled response now) = saveProgress_settled response now st"
| "step st (LoadLocal duration skipped) = loadProgress_local duration skipped st"
| "step st (LoadServer duration skipped localData response) =
     loadProgress_server duration skipped localData response st"
| "step st (Calculate duration skipped) = snd (calculateProgress duration skipped st)"


subsection \<open>The state of a freshly mounted hook\<close>

text \<open>The initial values of lines 30--46; \<open>now\<close> is the \<open>Date.now()\<close> of the mount.\<close>

definition initialTracker :: "int \<Rightarrow> tracker" where
  "initialTracker now =
     \<lparr>serverProgress = None, localProgress = 0, isLoading = True, error = None,
      skippedAhead = False, isInitialized = False, isCompleted = False,
      currentIntervalRef = None, lastUpdateTimeRef = now, lastUIUpdateTimeRef = now,
      isPlayingRef = False, lastKnownPositionRef = 0, intervalsRef = [],
      totalWatchedRef = 0, wasFullyWatchedRef = False, localStorage = None, effects = []\<rparr>"

section \<open>Properties\<close>

subsection \<open>Predicates and example data\<close>

text \<open>Ascending starts, and a gap of more than the tolerance between any earlier and any
  later interval.\<close>

definition startsOrdered :: "IInterval list \<Rightarrow> bool" where
  "startsOrdered merged = sorted_wrt (\<lambda>a b. start a \<le> start b) merged"

definition gapsApart :: "IInterval list \<Rightarrow> bool" where
  "gapsApart merged = sorted_wrt (\<lambda>a b. end' a + 0.1 < start b) merged"

text \<open>An interval that lies within the video, and one that also spans the minimum watch
  time.\<close>

definition withinVideo :: "real \<Rightarrow> IInterval \<Rightarrow> bool" where
  "withinVideo d interval = (0 \<le> start interval \<and> end' interval \<le> d)"

definition longEnough :: "real \<Rightarrow> IInterval \<Rightarrow> bool" where
  "longEnough d interval =
     (withinVideo d interval \<and> end' interval - start interval \<ge> MINIMUM_WATCH_TIME)"

text \<open>The pair of both fields, ordered lexicographically: a key that tells any two intervals
  apart.\<close>

definition startEnd :: "IInterval \<Rightarrow> real \<times> real" where
  "startEnd interval = (start interval, end' interval)"

text \<open>
  What the synchronous part of \<open>loadProgress\<close> leaves in \<open>wasFullyWatchedRef\<close> for a cached
  record: its \<open>isCompleted\<close>, or else what \<open>calculateProgress\<close> decides on its intervals.
\<close>

definition completedLocally :: "real option \<Rightarrow> bool \<Rightarrow> LocalStorageProgress \<Rightarrow> bool" where
  "completedLocally duration skipped cached =
     (ls_isCompleted cached \<or>
      (truthy duration \<and> percentageOf (the duration) (ls_intervals cached) \<ge> 99.5 \<and> \<not> skipped))"

text \<open>
  The condition under which \<open>calculateProgress\<close> sets the latch on a tracker that holds the
  intervals \<open>raw\<close> and whose latch is not set (lines 56 and 105).
\<close>

definition completesNow :: "real option \<Rightarrow> bool \<Rightarrow> IInterval list \<Rightarrow> bool" where
  "completesNow duration skipped raw =
     (truthy duration \<and> percentageOf (the duration) raw \<ge> 99.5 \<and> \<not> skipped)"


text \<open>A tracker that plays with the open interval \<open>{0, 20}\<close>, last seen at 20 seconds.\<close>

definition playingTracker :: tracker where
  "playingTracker = (initialTracker 0)\<lparr>isPlayingRef := True,
      currentIntervalRef := Some \<lparr>start = 0, end' = 20\<rparr>, lastKnownPositionRef := 20\<rparr>"

text \<open>A tracker that plays with the open interval \<open>{0, 5.75}\<close>, mounted six seconds ago.\<close>

definition tickTracker :: tracker where
  "tickTracker = (initialTracker 0)\<lparr>isPlayingRef := True,
      currentIntervalRef := Some \<lparr>start = 0, end' = 5.75\<rparr>, lastKnownPositionRef := 5.75\<rparr>"

text \<open>A tracker whose completion latch is set, with one accumulated interval.\<close>

definition latchedTracker :: tracker where
  "latchedTracker = (initialTracker 0)\<lparr>wasFullyWatchedRef := True, isCompleted := True,
      localProgress := 100, lastKnownPositionRef := 100,
      intervalsRef := [\<lparr>start = 0, end' = 100\<rparr>], totalWatchedRef := 100\<rparr>"


text \<open>A cached record of a full watch whose latch is not set, a cached record whose latch is
  set, and a later remote record.\<close>

definition cachedRecord :: LocalStorageProgress where
  "cachedRecord = \<lparr>ls_lastPosition = 100, ls_totalWatched = 100,
                    ls_intervals = [\<lparr>start = 0, end' = 100\<rparr>], ls_timestamp = 1000,
                    ls_isCompleted = False\<rparr>"

definition completedRecord :: LocalStorageProgress where
  "completedRecord = \<lparr>ls_lastPosition = 100, ls_totalWatched = 100,
                       ls_intervals = [\<lparr>start = 0, end' = 100\<rparr>], ls_timestamp = 1000,
                       ls_isCompleted = True\<rparr>"

definition remoteRecord :: IProgress where
  "remoteRecord = \<lparr>userId = ''u'', videoId = ''v'', intervals = [\<lparr>start = 0, end' = 10\<rparr>],
                    lastPosition = 10, totalWatched = 10, lastWatchedAt = 2000\<rparr>"


text \<open>The raw intervals of the merge scenarios.\<close>

definition rawExample :: "IInterval list" where
  "rawExample = [\<lparr>start = 80, end' = 100\<rparr>, \<lparr>start = 0, end' = 30\<rparr>, \<lparr>start = 30.05, end' = 60\<rparr>]"

lemmas eval_defs = handleTimeUpdate_def extendCurrent_def extended_def checkSkip_def uiTick_def
  saveTick_def saveProgress_def saveProgress_settled_def saveToLocalStorage_def
  calculateProgress_def percentageOf_def totalWatchedOf_def mergedIntervals_def mergeStep_def
  validInterval_def truthy_def MINIMUM_WATCH_TIME_def SKIP_THRESHOLD_def UI_UPDATE_INTERVAL_def
  PROGRESS_UPDATE_INTERVAL_def initialTracker_def Let_def

subsection \<open>The merge loop\<close>

lemma mergeStep_Nil:
  "mergeStep d [] x = [\<lparr>start = max 0 (start x), end' = min d (end' x)\<rparr>]"
  by (simp add: mergeStep_def)

lemma mergeStep_snoc:
  "mergeStep d (ms @ [l]) x =
     (if max 0 (start x) \<le> end' l + 0.1
      then ms @ [l\<lparr>end' := max (end' l) (min d (end' x))\<rparr>]
      else ms @ [l, \<lparr>start = max 0 (start x), end' = min d (end' x)\<rparr>])"
  by (simp add: mergeStep_def Let_def)

text \<open>One iteration keeps the merged list ordered and apart, when no merged start lies
  beyond the clamped start of the interval that comes in.\<close>

lemma mergeStep_inv:
  assumes "startsOrdered ms" "gapsApart ms" "\<forall>m\<in>set ms. start m \<le> max 0 (start x)"
  shows "startsOrdered (mergeStep d ms x) \<and> gapsApart (mergeStep d ms x) \<and>
         (\<forall>m\<in>set (mergeStep d ms x). start m \<le> max 0 (start x))"
proof (cases ms rule: rev_cases)
  case Nil
  then show ?thesis by (simp add: mergeStep_Nil startsOrdered_def gapsApart_def)
next
  case (snoc ys l)
  with assms show ?thesis
    by (auto simp: mergeStep_snoc startsOrdered_def gapsApart_def sorted_wrt_append)
qed

lemma mergeLoop_inv:
  assumes "sorted (map start xs)" "startsOrdered ms" "gapsApart ms"
    "\<forall>m\<in>set ms. \<forall>x\<in>set xs. start m \<le> max 0 (start x)"
  shows "startsOrdered (foldl (mergeStep d) ms xs) \<and> gapsApart (foldl (mergeStep d) ms xs)"
  using assms
proof (induction xs arbitrary: ms)
  case Nil
  then show ?case by simp
next
  case (Cons x xs)
  have step: "startsOrdered (mergeStep d ms x) \<and> gapsApart (mergeStep d ms x) \<and>
         (\<forall>m\<in>set (mergeStep d ms x). start m \<le> max 0 (start x))"
    using Cons.prems by (intro mergeStep_inv) auto
  have "\<forall>m\<in>set (mergeStep d ms x). \<forall>y\<in>set xs. start m \<le> max 0 (start y)"
  proof (intro ballI)
    fix m y assume m: "m \<in> set (mergeStep d ms x)" and y: "y \<in> set xs"
    from Cons.prems(1) y have "start x \<le> start y" by auto
    with step m show "start m \<le> max 0 (start y)" by fastforce
  qed
  moreover from Cons.prems(1) have "sorted (map start xs)" by simp
  ultimately show ?case using Cons.IH[of "mergeStep d ms x"] step by simp
qed

lemma merged_ordered_apart:
  "startsOrdered (mergedIntervals d raw) \<and> gapsApart (mergedIntervals d raw)"
  unfolding mergedIntervals_def
  by (rule mergeLoop_inv) (simp_all add: startsOrdered_def gapsApart_def)

text \<open>Intervals within the video are their own clamping, and merging valid ones gives
  intervals within the video that span the minimum watch time.\<close>

lemma clamp_within:
  "withinVideo d x \<Longrightarrow> \<lparr>start = max 0 (start x), end' = min d (end' x)\<rparr> = x"
  by (simp add: withinVideo_def max_def min_def)

lemma mergeStep_longEnough:
  assumes "\<forall>m\<in>set ms. longEnough d m" "withinVideo d x" "validInterval d x"
  shows "\<forall>m\<in>set (mergeStep d ms x). longEnough d m"
proof (cases ms rule: rev_cases)
  case Nil
  with assms show ?thesis
    by (auto simp: mergeStep_Nil longEnough_def withinVideo_def validInterval_def
          MINIMUM_WATCH_TIME_def split: if_splits)
next
  case (snoc ys l)
  with assms show ?thesis
    by (auto simp: mergeStep_snoc longEnough_def withinVideo_def validInterval_def
          MINIMUM_WATCH_TIME_def split: if_splits)
qed

lemma mergeLoop_longEnough:
  "\<forall>m\<in>set ms. longEnough d m \<Longrightarrow> \<forall>x\<in>set xs. withinVideo d x \<and> validInterval d x \<Longrightarrow>
   \<forall>m\<in>set (foldl (mergeStep d) ms xs). longEnough d m"
proof (induction xs arbitrary: ms)
  case Nil
  then show ?case by simp
next
  case (Cons x xs)
  have "\<forall>m\<in>set (mergeStep d ms x). longEnough d m"
    using Cons.prems by (intro mergeStep_longEnough) auto
  then show ?case using Cons.IH[of "mergeStep d ms x"] Cons.prems(2) by simp
qed

lemma longEnough_valid: "longEnough d m \<Longrightarrow> validInterval d m"
  by (auto simp: longEnough_def withinVideo_def validInterval_def MINIMUM_WATCH_TIME_def)

text \<open>On intervals that are apart and within the video the loop merges nothing.\<close>

lemma mergeLoop_apart_id:
  "gapsApart (ms @ xs) \<Longrightarrow> \<forall>x\<in>set xs. withinVideo d x \<Longrightarrow>
   foldl (mergeStep d) ms xs = ms @ xs"
proof (induction xs arbitrary: ms)
  case Nil
  then show ?case by simp
next
  case (Cons x xs)
  have x: "withinVideo d x" using Cons.prems(2) by simp
  have "mergeStep d ms x = ms @ [x]"
  proof (cases ms rule: rev_cases)
    case Nil
    then show ?thesis using clamp_within[OF x] by (simp add: mergeStep_Nil)
  next
    case (snoc ys l)
    have "end' l + 0.1 < start x"
      using Cons.prems(1) snoc by (simp add: gapsApart_def sorted_wrt_append)
    moreover have "max 0 (start x) = start x" using x by (simp add: withinVideo_def)
    ultimately show ?thesis using snoc clamp_within[OF x] by (simp add: mergeStep_snoc)
  qed
  moreover have "foldl (mergeStep d) (ms @ [x]) xs = (ms @ [x]) @ xs"
    using Cons.prems by (intro Cons.IH) simp_all
  ultimately show ?case by simp
qed

lemma merged_fixed:
  assumes "\<forall>i\<in>set raw. withinVideo d i"
  shows "mergedIntervals d (mergedIntervals d raw) = mergedIntervals d raw"
proof -
  let ?M = "mergedIntervals d raw"
  have le: "\<forall>m\<in>set ?M. longEnough d m"
    unfolding mergedIntervals_def using assms by (intro mergeLoop_longEnough) auto
  then have "filter (validInterval d) ?M = ?M"
    by (auto intro: longEnough_valid simp: filter_id_conv)
  moreover have "sort_key start ?M = ?M"
    using merged_ordered_apart[of d raw]
    by (intro sort_key_id_if_sorted) (simp add: startsOrdered_def sorted_map)
  moreover have "foldl (mergeStep d) [] ?M = [] @ ?M"
    using merged_ordered_apart[of d raw] le
    by (intro mergeLoop_apart_id) (auto simp: longEnough_def)
  ultimately show ?thesis by (simp add: mergedIntervals_def[of d ?M])
qed

text \<open>Two valid intervals with the same non-negative start can come in either order.\<close>

lemma inj_startEnd: "inj_on startEnd A"
  by (rule inj_onI) (simp add: startEnd_def)

lemma mergeStep_commute:
  assumes "start x = start z" "0 \<le> start x" "validInterval d x" "validInterval d z"
  shows "mergeStep d (mergeStep d ms x) z = mergeStep d (mergeStep d ms z) x"
proof (cases ms rule: rev_cases)
  case Nil
  with assms show ?thesis
    by (auto simp: mergeStep_Nil mergeStep_snoc[of d "[]", simplified] validInterval_def
          max_def min_def split: if_splits)
next
  case (snoc ys l)
  with assms show ?thesis
    by (auto simp: mergeStep_snoc mergeStep_snoc[of d "ys @ [l]", simplified] validInterval_def
          max_def min_def split: if_splits)
qed

lemma mergeLoop_insort:
  assumes "\<forall>z\<in>set zs. start x \<le> start z" "0 \<le> start x" "validInterval d x"
    "\<forall>z\<in>set zs. validInterval d z"
  shows "foldl (mergeStep d) ms (insort_key startEnd x zs) =
         foldl (mergeStep d) (mergeStep d ms x) zs"
  using assms
proof (induction zs arbitrary: ms)
  case Nil
  then show ?case by simp
next
  case (Cons z zs)
  show ?case
  proof (cases "startEnd x \<le> startEnd z")
    case True
    then show ?thesis by simp
  next
    case False
    with Cons.prems(1) have eq: "start x = start z"
      by (auto simp: startEnd_def)
    have "foldl (mergeStep d) ms (insort_key startEnd x (z # zs)) =
          foldl (mergeStep d) (mergeStep d ms z) (insort_key startEnd x zs)"
      using False by simp
    also have "\<dots> = foldl (mergeStep d) (mergeStep d (mergeStep d ms z) x) zs"
      using Cons.prems by (intro Cons.IH) simp_all
    also have "mergeStep d (mergeStep d ms z) x = mergeStep d (mergeStep d ms x) z"
      using eq Cons.prems by (intro mergeStep_commute[symmetric]) simp_all
    finally show ?thesis by simp
  qed
qed

text \<open>The loop gives the same on a list sorted by start and on the same list sorted by
  start and end.\<close>

lemma mergeLoop_canonical:
  assumes "sorted (map start xs)" "\<forall>x\<in>set xs. 0 \<le> start x \<and> validInterval d x"
  shows "foldl (mergeStep d) ms xs = foldl (mergeStep d) ms (sort_key startEnd xs)"
  using assms
proof (induction xs arbitrary: ms)
  case Nil
  then show ?case by simp
next
  case (Cons x xs)
  have "foldl (mergeStep d) ms (sort_key startEnd (x # xs)) =
        foldl (mergeStep d) (mergeStep d ms x) (sort_key startEnd xs)"
    using Cons.prems by (simp add: mergeLoop_insort)
  also have "\<dots> = foldl (mergeStep d) (mergeStep d ms x) xs"
    using Cons.prems by (intro Cons.IH[symmetric]) simp_all
  finally show ?case by simp
qed

lemma merged_permutation:
  assumes "mset raw1 = mset raw2" "\<forall>i\<in>set raw1. 0 \<le> start i"
  shows "mergedIntervals d raw1 = mergedIntervals d raw2"
proof -
  let ?v1 = "sort_key start (filter (validInterval d) raw1)"
  let ?v2 = "sort_key start (filter (validInterval d) raw2)"
  have s: "set raw1 = set raw2" using assms(1) by (rule mset_eq_setD)
  have m: "mset ?v1 = mset ?v2" using assms(1) by simp
  have "foldl (mergeStep d) [] ?v1 = foldl (mergeStep d) [] (sort_key startEnd ?v1)"
    using assms(2) by (intro mergeLoop_canonical) auto
  also have "sort_key startEnd ?v1 = sort_key startEnd ?v2"
    using m inj_startEnd by (rule sort_key_eq_sort_key)
  also have "foldl (mergeStep d) [] (sort_key startEnd ?v2) = foldl (mergeStep d) [] ?v2"
    using assms(2) s by (intro mergeLoop_canonical[symmetric]) auto
  finally show ?thesis by (simp add: mergedIntervals_def)
qed

text \<open>The merge scenarios: \<open>{0, 30}\<close> and \<open>{30.05, 60}\<close> merge into \<open>{0, 60}\<close>; \<open>{0, 30}\<close>
  and \<open>{32, 60}\<close> stay separate, with 58 seconds watched.\<close>

lemma merged_rawExample:
  "mergedIntervals 100 rawExample = [\<lparr>start = 0, end' = 60\<rparr>, \<lparr>start = 80, end' = 100\<rparr>]"
  by (simp add: rawExample_def mergedIntervals_def mergeStep_def validInterval_def
        MINIMUM_WATCH_TIME_def)

lemma merged_separate:
  "mergedIntervals 100 [\<lparr>start = 0, end' = 30\<rparr>, \<lparr>start = 32, end' = 60\<rparr>] =
     [\<lparr>start = 0, end' = 30\<rparr>, \<lparr>start = 32, end' = 60\<rparr>] \<and>
   totalWatchedOf (mergedIntervals 100 [\<lparr>start = 0, end' = 30\<rparr>, \<lparr>start = 32, end' = 60\<rparr>]) = 58"
  by (simp add: mergedIntervals_def mergeStep_def validInterval_def totalWatchedOf_def
        MINIMUM_WATCH_TIME_def)

subsection \<open>Claims about the merge\<close>

text \<open>
  Claim C7, as amended. The filter, sort and merge pass is idempotent on raw intervals that
  lie within the video: for every duration \<open>d > 0\<close> and every raw list whose intervals
  have \<open>0 \<le> start\<close> and \<open>end \<le> d\<close>, the pass applied to its own output gives the same
  intervals, the same total watched time and the same percentage.
\<close>

theorem mergedIntervals_idempotent:
  assumes "d > 0" "\<forall>i\<in>set raw. 0 \<le> start i \<and> end' i \<le> d"
  shows "mergedIntervals d (mergedIntervals d raw) = mergedIntervals d raw \<and>
         totalWatchedOf (mergedIntervals d (mergedIntervals d raw)) =
           totalWatchedOf (mergedIntervals d raw) \<and>
         percentageOf d (mergedIntervals d raw) = percentageOf d raw"
  using merged_fixed[of raw d] assms(2) by (simp add: withinVideo_def percentageOf_def)

theorem mergedIntervals_idempotent_witness:
  "(0::real) < 100 \<and>
   mergedIntervals 100 (mergedIntervals 100 rawExample) =
     [\<lparr>start = 0, end' = 60\<rparr>, \<lparr>start = 80, end' = 100\<rparr>] \<and>
   percentageOf 100 (mergedIntervals 100 rawExample) = percentageOf 100 rawExample"
proof -
  have h: "\<forall>i\<in>set rawExample. 0 \<le> start i \<and> end' i \<le> 100"
    by (simp add: rawExample_def)
  have d: "(0::real) < 100" by simp
  show ?thesis
    using mergedIntervals_idempotent[OF d h] h merged_rawExample by simp
qed

text \<open>
  Claim C7 as stated fails on an interval that ends after the video: with a duration of 100
  seconds, \<open>{99.5, 101}\<close> passes the filter and is clamped to \<open>{99.5, 100}\<close>, which the
  filter of the second pass drops, being shorter than the minimum watch time.
\<close>

theorem mergedIntervals_idempotent_counterexample:
  "mergedIntervals 100 [\<lparr>start = 99.5, end' = 101\<rparr>] = [\<lparr>start = 99.5, end' = 100\<rparr>] \<and>
   mergedIntervals 100 (mergedIntervals 100 [\<lparr>start = 99.5, end' = 101\<rparr>]) = [] \<and>
   mergedIntervals 100 (mergedIntervals 100 [\<lparr>start = 99.5, end' = 101\<rparr>]) \<noteq>
     mergedIntervals 100 [\<lparr>start = 99.5, end' = 101\<rparr>]"
  by (simp add: mergedIntervals_def mergeStep_def validInterval_def MINIMUM_WATCH_TIME_def)

text \<open>
  Claim C8, as amended. The pass is independent of the order of raw intervals whose starts
  are not negative: for every duration \<open>d > 0\<close> and any two lists with the same intervals
  (as multisets), none starting before 0, the pass gives the same merged intervals, the same
  total watched time and the same percentage.
\<close>

theorem mergedIntervals_permutation:
  assumes "d > 0" "mset raw1 = mset raw2" "\<forall>i\<in>set raw1. 0 \<le> start i"
  shows "mergedIntervals d raw1 = mergedIntervals d raw2 \<and>
         totalWatchedOf (mergedIntervals d raw1) = totalWatchedOf (mergedIntervals d raw2) \<and>
         percentageOf d raw1 = percentageOf d raw2"
  using merged_permutation[OF assms(2,3), of d] by (simp add: percentageOf_def)

theorem mergedIntervals_permutation_witness:
  "(0::real) < 100 \<and> mset rawExample = mset (rev rawExample) \<and>
   mergedIntervals 100 (rev rawExample) = [\<lparr>start = 0, end' = 60\<rparr>, \<lparr>start = 80, end' = 100\<rparr>] \<and>
   percentageOf 100 rawExample = percentageOf 100 (rev rawExample)"
proof -
  have d: "(0::real) < 100" by simp
  have m: "mset rawExample = mset (rev rawExample)" by simp
  have h: "\<forall>i\<in>set rawExample. 0 \<le> start i" by (simp add: rawExample_def)
  show ?thesis
    using mergedIntervals_permutation[OF d m h] m h merged_rawExample by simp
qed

text \<open>
  Claim C8 as stated fails on intervals that start before 0: \<open>{-5, -3}\<close> and \<open>{-5, 0.05}\<close>
  pass the filter and have the same start, so the stable sort keeps their order; clamped to
  \<open>{0, -3}\<close> and \<open>{0, 0.05}\<close> they stay two intervals in this order and merge into one in
  the other.
\<close>

theorem mergedIntervals_permutation_counterexample:
  "mset [\<lparr>start = -5, end' = -3\<rparr>, \<lparr>start = -5, end' = 0.05\<rparr>] =
     mset [\<lparr>start = -5, end' = 0.05\<rparr>, \<lparr>start = -5, end' = -3\<rparr>] \<and>
   mergedIntervals 100 [\<lparr>start = -5, end' = -3\<rparr>, \<lparr>start = -5, end' = 0.05\<rparr>] =
     [\<lparr>start = 0, end' = -3\<rparr>, \<lparr>start = 0, end' = 0.05\<rparr>] \<and>
   mergedIntervals 100 [\<lparr>start = -5, end' = 0.05\<rparr>, \<lparr>start = -5, end' = -3\<rparr>] =
     [\<lparr>start = 0, end' = 0.05\<rparr>] \<and>
   mergedIntervals 100 [\<lparr>start = -5, end' = -3\<rparr>, \<lparr>start = -5, end' = 0.05\<rparr>] \<noteq>
     mergedIntervals 100 [\<lparr>start = -5, end' = 0.05\<rparr>, \<lparr>start = -5, end' = -3\<rparr>]"
  by (simp add: mergedIntervals_def mergeStep_def validInterval_def MINIMUM_WATCH_TIME_def)

text \<open>
  Claim C9. For every raw interval list and every duration \<open>d > 0\<close>, the merged intervals
  are sorted ascending by start, every earlier one ends before every later one starts
  (they are pairwise disjoint), and two consecutive ones are separated by a gap of more than
  the tolerance of 0.1 seconds.
\<close>

theorem mergedIntervals_sorted_disjoint_apart:
  assumes "d > 0"
  shows "sorted (map start (mergedIntervals d raw)) \<and>
         (\<forall>i j. i < j \<and> j < length (mergedIntervals d raw) \<longrightarrow>
             end' (mergedIntervals d raw ! i) < start (mergedIntervals d raw ! j)) \<and>
         (\<forall>i. Suc i < length (mergedIntervals d raw) \<longrightarrow>
             start (mergedIntervals d raw ! Suc i) - end' (mergedIntervals d raw ! i) > 0.1)"
proof -
  let ?M = "mergedIntervals d raw"
  have o: "sorted_wrt (\<lambda>a b. start a \<le> start b) ?M"
    and g: "sorted_wrt (\<lambda>a b. end' a + 0.1 < start b) ?M"
    using merged_ordered_apart[of d raw] by (simp_all add: startsOrdered_def gapsApart_def)
  have 1: "sorted (map start ?M)" using o by (simp add: sorted_map)
  have 2: "end' (?M ! i) + 0.1 < start (?M ! j)" if "i < j" "j < length ?M" for i j
    using g that by (simp add: sorted_wrt_iff_nth_less)
  have 3: "end' (?M ! i) < start (?M ! j)" if "i < j" "j < length ?M" for i j
    using 2[OF that] by simp
  have 4: "start (?M ! Suc i) - end' (?M ! i) > 0.1" if "Suc i < length ?M" for i
    using 2[of i "Suc i"] that by simp
  show ?thesis using 1 3 4 by blast
qed

theorem mergedIntervals_sorted_disjoint_apart_witness:
  "(0::real) < 100 \<and>
   mergedIntervals 100 rawExample = [\<lparr>start = 0, end' = 60\<rparr>, \<lparr>start = 80, end' = 100\<rparr>] \<and>
   sorted (map start (mergedIntervals 100 rawExample)) \<and>
   end' (mergedIntervals 100 rawExample ! 0) < start (mergedIntervals 100 rawExample ! 1) \<and>
   start (mergedIntervals 100 rawExample ! 1) - end' (mergedIntervals 100 rawExample ! 0) > 0.1"
proof -
  have d: "(0::real) < 100" by simp
  show ?thesis
    using mergedIntervals_sorted_disjoint_apart[OF d, of rawExample] merged_rawExample by simp
qed

subsection \<open>What the parts of the handlers leave unchanged\<close>

lemma calculateProgress_frame:
  "intervalsRef (snd (calculateProgress duration skipped st)) = intervalsRef st"
  "currentIntervalRef (snd (calculateProgress duration skipped st)) = currentIntervalRef st"
  "skippedAhead (snd (calculateProgress duration skipped st)) = skippedAhead st"
  "lastKnownPositionRef (snd (calculateProgress duration skipped st)) = lastKnownPositionRef st"
  "localStorage (snd (calculateProgress duration skipped st)) = localStorage st"
  "effects (snd (calculateProgress duration skipped st)) = effects st"
  by (simp_all add: calculateProgress_def Let_def)

lemma uiTick_frame:
  "intervalsRef (uiTick duration skipped now st) = intervalsRef st"
  "currentIntervalRef (uiTick duration skipped now st) = currentIntervalRef st"
  "skippedAhead (uiTick duration skipped now st) = skippedAhead st"
  "localStorage (uiTick duration skipped now st) = localStorage st"
  "effects (uiTick duration skipped now st) = effects st"
  by (simp_all add: uiTick_def split_beta calculateProgress_frame)

lemma saveTick_frame:
  "skippedAhead (saveTick duration skipped now t st) = skippedAhead st"
  "localStorage (saveTick duration skipped now t st) = localStorage st"
  by (simp_all add: saveTick_def saveProgress_def split_beta Let_def calculateProgress_frame
        split: option.splits)

lemma saveTick_open:
  "currentIntervalRef st = Some current \<Longrightarrow>
   intervalsRef (saveTick duration skipped now t st) =
     (if end' current - start current \<ge> 1 then intervalsRef st @ [current]
      else intervalsRef st) \<and>
   currentIntervalRef (saveTick duration skipped now t st) =
     (if end' current - start current \<ge> 1 then Some \<lparr>start = t, end' = t\<rparr>
      else Some current) \<and>
   effects (saveTick duration skipped now t st) =
     effects st @ [RemoteWrite (if end' current - start current \<ge> 1
                                then \<lparr>start = t, end' = t\<rparr> else current) t]"
  by (simp add: saveTick_def saveProgress_def split_beta Let_def calculateProgress_frame
        MINIMUM_WATCH_TIME_def)

lemma checkSkip_open:
  "currentIntervalRef st = Some current \<Longrightarrow>
   checkSkip t st =
     (if abs (t - lastKnownPositionRef st) > SKIP_THRESHOLD
      then st\<lparr>intervalsRef := intervalsRef st @ [current],
              currentIntervalRef := Some \<lparr>start = t, end' = t\<rparr>, skippedAhead := True\<rparr>
      else st)"
  by (simp add: checkSkip_def Let_def)

subsection \<open>Claims about the handlers\<close>

text \<open>
  Claim C1, as amended. On every \<open>handleTimeUpdate(t)\<close> call while playing with a duration
  that is neither zero nor undefined, \<open>lastKnownPosition\<close> becomes \<open>t\<close>. If
  \<open>|t - lastKnownPosition|\<close> exceeds the skip threshold of 10 seconds, the open interval is
  closed (one interval with its start is appended to the accumulated list), a fresh open
  interval \<open>{t, t}\<close> is opened and the skip flag is set. Otherwise the skip flag is
  unchanged and the end of the open interval is extended to \<open>t\<close>; the extended interval stays
  open, unless the persistence cadence has fired and it spans the minimum watch time, when
  it is closed and \<open>{t, t}\<close> is opened.
\<close>

theorem handleTimeUpdate_skip_or_extend:
  assumes "isPlayingRef st" "truthy duration"
  shows "lastKnownPositionRef (handleTimeUpdate duration now t st) = t \<and>
    (abs (t - lastKnownPositionRef st) > SKIP_THRESHOLD \<longrightarrow>
       skippedAhead (handleTimeUpdate duration now t st) \<and>
       currentIntervalRef (handleTimeUpdate duration now t st) = Some \<lparr>start = t, end' = t\<rparr> \<and>
       (\<exists>closed. intervalsRef (handleTimeUpdate duration now t st) = intervalsRef st @ [closed] \<and>
                 start closed = start (extended t st))) \<and>
    (\<not> abs (t - lastKnownPositionRef st) > SKIP_THRESHOLD \<longrightarrow>
       skippedAhead (handleTimeUpdate duration now t st) = skippedAhead st \<and>
       (if now - lastUpdateTimeRef st \<ge> PROGRESS_UPDATE_INTERVAL \<and>
           end' (extended t st) - start (extended t st) \<ge> MINIMUM_WATCH_TIME
        then intervalsRef (handleTimeUpdate duration now t st) = intervalsRef st @ [extended t st] \<and>
             currentIntervalRef (handleTimeUpdate duration now t st) = Some \<lparr>start = t, end' = t\<rparr>
        else intervalsRef (handleTimeUpdate duration now t st) = intervalsRef st \<and>
             currentIntervalRef (handleTimeUpdate duration now t st) = Some (extended t st)))"
  using assms
  by (simp add: handleTimeUpdate_def Let_def extendCurrent_def checkSkip_open uiTick_frame
        saveTick_frame saveTick_open MINIMUM_WATCH_TIME_def)

theorem handleTimeUpdate_skip_or_extend_witness:
  "isPlayingRef playingTracker \<and> truthy (Some 100) \<and>
   abs (80 - lastKnownPositionRef playingTracker) > SKIP_THRESHOLD \<and>
   lastKnownPositionRef (handleTimeUpdate (Some 100) 500 80 playingTracker) = 80 \<and>
   skippedAhead (handleTimeUpdate (Some 100) 500 80 playingTracker) \<and>
   currentIntervalRef (handleTimeUpdate (Some 100) 500 80 playingTracker) =
     Some \<lparr>start = 80, end' = 80\<rparr> \<and>
   length (intervalsRef (handleTimeUpdate (Some 100) 500 80 playingTracker)) = 1"
proof -
  have p: "isPlayingRef playingTracker" by (simp add: playingTracker_def initialTracker_def)
  have d: "truthy (Some 100)" by (simp add: truthy_def)
  have s: "abs (80 - lastKnownPositionRef playingTracker) > SKIP_THRESHOLD"
    by (simp add: playingTracker_def initialTracker_def SKIP_THRESHOLD_def)
  have i: "intervalsRef playingTracker = []" by (simp add: playingTracker_def initialTracker_def)
  show ?thesis
    using handleTimeUpdate_skip_or_extend[OF p d, of 500 80] p d s i by auto
qed

text \<open>
  Claim C1 as stated fails while the duration is zero: the handler returns at once and
  \<open>lastKnownPosition\<close> keeps its value.
\<close>

theorem handleTimeUpdate_zero_duration_counterexample:
  "isPlayingRef ((initialTracker 0)\<lparr>isPlayingRef := True\<rparr>) \<and>
   lastKnownPositionRef
     (handleTimeUpdate (Some 0) 7000 5 ((initialTracker 0)\<lparr>isPlayingRef := True\<rparr>)) = 0 \<and>
   lastKnownPositionRef
     (handleTimeUpdate (Some 0) 7000 5 ((initialTracker 0)\<lparr>isPlayingRef := True\<rparr>)) \<noteq> 5"
  by (simp add: eval_defs)

text \<open>
  The interval that a skip closes has been extended to \<open>t\<close> before: playing from 0 to 20
  and jumping to 80 appends \<open>{0, 80}\<close>.
\<close>

lemma handleTimeUpdate_skip_closes_extended:
  "intervalsRef (handleTimeUpdate (Some 100) 500 80 playingTracker) = [\<lparr>start = 0, end' = 80\<rparr>]"
  by (simp add: eval_defs playingTracker_def)

text \<open>
  The gate of the latch inside \<open>calculateProgress\<close>, on the \<open>skippedAhead\<close> of its closure:
  when it computes a percentage (the duration is positive and the latch is not yet set) and
  the percentage is at least 99.5 while that flag is false, it sets the completion latch and
  reports 100; when that flag is true, it leaves the latch unset and reports the computed
  percentage, also at 99.5 and above.
\<close>

lemma calculateProgress_latch_gate:
  assumes "d > 0" "\<not> wasFullyWatchedRef st"
  shows "(percentageOf d (intervalsRef st) \<ge> 99.5 \<and> \<not> skipped \<longrightarrow>
           fst (calculateProgress (Some d) skipped st) = 100 \<and>
           wasFullyWatchedRef (snd (calculateProgress (Some d) skipped st)) \<and>
           isCompleted (snd (calculateProgress (Some d) skipped st))) \<and>
         (skipped \<longrightarrow>
           fst (calculateProgress (Some d) skipped st) = percentageOf d (intervalsRef st) \<and>
           \<not> wasFullyWatchedRef (snd (calculateProgress (Some d) skipped st)))"
  using assms by (simp add: calculateProgress_def truthy_def Let_def)

lemma calculateProgress_latch_gate_example:
  "(0::real) < 100 \<and>
   \<not> wasFullyWatchedRef ((initialTracker 0)\<lparr>intervalsRef := [\<lparr>start = 0, end' = 99.6\<rparr>]\<rparr>) \<and>
   percentageOf 100 [\<lparr>start = 0, end' = 99.6\<rparr>] = 99.6 \<and>
   fst (calculateProgress (Some 100) False
          ((initialTracker 0)\<lparr>intervalsRef := [\<lparr>start = 0, end' = 99.6\<rparr>]\<rparr>)) = 100 \<and>
   wasFullyWatchedRef (snd (calculateProgress (Some 100) False
          ((initialTracker 0)\<lparr>intervalsRef := [\<lparr>start = 0, end' = 99.6\<rparr>]\<rparr>))) \<and>
   fst (calculateProgress (Some 100) True
          ((initialTracker 0)\<lparr>intervalsRef := [\<lparr>start = 0, end' = 99.6\<rparr>]\<rparr>)) = 99.6 \<and>
   \<not> wasFullyWatchedRef (snd (calculateProgress (Some 100) True
          ((initialTracker 0)\<lparr>intervalsRef := [\<lparr>start = 0, end' = 99.6\<rparr>]\<rparr>)))"
proof -
  let ?st = "(initialTracker 0)\<lparr>intervalsRef := [\<lparr>start = 0, end' = 99.6\<rparr>]\<rparr>"
  have d: "(0::real) < 100" by simp
  have l: "\<not> wasFullyWatchedRef ?st" by (simp add: initialTracker_def)
  have p: "percentageOf 100 (intervalsRef ?st) = 99.6"
    by (simp add: percentageOf_def totalWatchedOf_def mergedIntervals_def mergeStep_def
          validInterval_def MINIMUM_WATCH_TIME_def)
  show ?thesis
    using calculateProgress_latch_gate[OF d l, of False]
      calculateProgress_latch_gate[OF d l, of True] l p by simp
qed

text \<open>
  Claim C2. Whenever a percentage computation with a positive duration yields at least 99.5
  and no skip has been flagged in the session, the latch is set and 100 is reported; once a
  skip is flagged, the latch is not set and the computed percentage is reported. The code
  breaks the second half. \<open>calculateProgress\<close> reads the \<open>skippedAhead\<close> of the last
  render (lines 105 and 121), which a \<open>setSkippedAhead(true)\<close> of the running call has not
  changed yet. On a hook that plays from 0 with a duration of 100 seconds, a time update at
  99.9 seconds, one second or more after the last UI update, flags the skip (line 319) and
  closes \<open>{0, 99.9}\<close>; the percentage computed in the same call is 99.9, the latch is set
  and 100 is reported.
\<close>

theorem handleTimeUpdate_skip_and_latch:
  "\<not> skippedAhead (handlePlay 0 0 (initialTracker 0)) \<and>
   \<not> wasFullyWatchedRef (handlePlay 0 0 (initialTracker 0)) \<and>
   skippedAhead (handleTimeUpdate (Some 100) 2000 99.9 (handlePlay 0 0 (initialTracker 0))) \<and>
   percentageOf 100
     (intervalsRef (handleTimeUpdate (Some 100) 2000 99.9 (handlePlay 0 0 (initialTracker 0)))) =
     99.9 \<and>
   wasFullyWatchedRef (handleTimeUpdate (Some 100) 2000 99.9 (handlePlay 0 0 (initialTracker 0))) \<and>
   isCompleted (handleTimeUpdate (Some 100) 2000 99.9 (handlePlay 0 0 (initialTracker 0))) \<and>
   localProgress (handleTimeUpdate (Some 100) 2000 99.9 (handlePlay 0 0 (initialTracker 0))) = 100"
  by (simp add: eval_defs handlePlay_def)

text \<open>After that one call the skip flag and the latch are both set.\<close>

theorem handleTimeUpdate_skip_and_latch_witness:
  "skippedAhead (handleTimeUpdate (Some 100) 2000 99.9 (handlePlay 0 0 (initialTracker 0))) \<and>
   wasFullyWatchedRef (handleTimeUpdate (Some 100) 2000 99.9 (handlePlay 0 0 (initialTracker 0)))"
  using handleTimeUpdate_skip_and_latch by simp


lemma calculateProgress_latch_after:
  "wasFullyWatchedRef (snd (calculateProgress duration skipped st)) =
     (wasFullyWatchedRef st \<or> completesNow duration skipped (intervalsRef st))"
  by (auto simp: calculateProgress_def completesNow_def Let_def)














text \<open>
  Claim C5, as amended. At every persistence-cadence tick the remote write is started
  inside the tick, with the open interval that the tick leaves, and the local cache is not
  written by the tick. The local cache is written only when the remote write has succeeded,
  from the tracker state of that moment, followed by the progress event; when the remote
  write has failed, the local cache is left as it was and the error is set.
\<close>

theorem handleTimeUpdate_remote_then_local:
  assumes "isPlayingRef st" "truthy duration"
    "now - lastUpdateTimeRef st \<ge> PROGRESS_UPDATE_INTERVAL"
  shows "(\<exists>current. currentIntervalRef (handleTimeUpdate duration now t st) = Some current \<and>
            effects (handleTimeUpdate duration now t st) = effects st @ [RemoteWrite current t]) \<and>
         localStorage (handleTimeUpdate duration now t st) = localStorage st \<and>
         localStorage (saveProgress_settled None now' later) = localStorage later \<and>
         effects (saveProgress_settled None now' later) = effects later \<and>
         error (saveProgress_settled None now' later) = Some ''Failed to save progress'' \<and>
         localStorage (saveProgress_settled (Some progress) now' later) =
           Some (Parsed \<lparr>ls_lastPosition = lastKnownPositionRef later,
                         ls_totalWatched = totalWatchedRef later,
                         ls_intervals = intervalsRef later,
                         ls_timestamp = now',
                         ls_isCompleted = wasFullyWatchedRef later\<rparr>) \<and>
         effects (saveProgress_settled (Some progress) now' later) =
           effects later @ [LocalWrite \<lparr>ls_lastPosition = lastKnownPositionRef later,
                                        ls_totalWatched = totalWatchedRef later,
                                        ls_intervals = intervalsRef later,
                                        ls_timestamp = now',
                                        ls_isCompleted = wasFullyWatchedRef later\<rparr>,
                            Emit progress]"
  using assms
  by (simp add: handleTimeUpdate_def Let_def extendCurrent_def checkSkip_open uiTick_frame
        saveTick_frame saveTick_open saveProgress_settled_def saveToLocalStorage_def)

theorem handleTimeUpdate_remote_then_local_witness:
  "isPlayingRef tickTracker \<and> truthy (Some 100) \<and>
   6000 - lastUpdateTimeRef tickTracker \<ge> PROGRESS_UPDATE_INTERVAL \<and>
   currentIntervalRef (handleTimeUpdate (Some 100) 6000 6 tickTracker) =
     Some \<lparr>start = 6, end' = 6\<rparr> \<and>
   effects (handleTimeUpdate (Some 100) 6000 6 tickTracker) =
     [RemoteWrite \<lparr>start = 6, end' = 6\<rparr> 6] \<and>
   localStorage (handleTimeUpdate (Some 100) 6000 6 tickTracker) = None"
proof -
  have p: "isPlayingRef tickTracker" by (simp add: tickTracker_def initialTracker_def)
  have d: "truthy (Some 100)" by (simp add: truthy_def)
  have c: "6000 - lastUpdateTimeRef tickTracker \<ge> PROGRESS_UPDATE_INTERVAL"
    by (simp add: tickTracker_def initialTracker_def PROGRESS_UPDATE_INTERVAL_def)
  have e: "effects tickTracker = []" "localStorage tickTracker = None"
    by (simp_all add: tickTracker_def initialTracker_def)
  have o: "currentIntervalRef (handleTimeUpdate (Some 100) 6000 6 tickTracker) =
             Some \<lparr>start = 6, end' = 6\<rparr>"
    by (simp add: eval_defs tickTracker_def)
  show ?thesis
    using handleTimeUpdate_remote_then_local[OF p d c, of 6] p d c e o by auto
qed

text \<open>
  Claim C5 as stated fails at a tick whose remote write fails: the tick closes \<open>{0, 6}\<close>
  and starts the remote write, nothing is written to the local cache before it, and nothing
  after the failure, so the cache stays empty while the tracker holds \<open>{0, 6}\<close>.
\<close>

theorem handleTimeUpdate_cache_counterexample:
  "effects (handleTimeUpdate (Some 100) 6000 6 tickTracker) =
     [RemoteWrite \<lparr>start = 6, end' = 6\<rparr> 6] \<and>
   localStorage (handleTimeUpdate (Some 100) 6000 6 tickTracker) = None \<and>
   localStorage (saveProgress_settled None 6500 (handleTimeUpdate (Some 100) 6000 6 tickTracker)) =
     None \<and>
   intervalsRef (saveProgress_settled None 6500 (handleTimeUpdate (Some 100) 6000 6 tickTracker)) =
     [\<lparr>start = 0, end' = 6\<rparr>]"
  by (simp add: eval_defs tickTracker_def)

text \<open>
  Claim C6. \<open>resetProgress\<close> while the completion latch is set is a no-op: the whole state
  (accumulated intervals, open interval, last known position, total watched time, skip
  flag, reported progress, cached record) is unchanged. While the latch is not set, it
  empties the accumulated intervals, drops the open interval, sets the last known position,
  the total watched time and the reported progress to 0, clears the skip flag and writes
  the empty record to the local cache.
\<close>

theorem resetProgress_latch:
  "(wasFullyWatchedRef st \<longrightarrow> resetProgress now st = st) \<and>
   (\<not> wasFullyWatchedRef st \<longrightarrow>
      intervalsRef (resetProgress now st) = [] \<and>
      currentIntervalRef (resetProgress now st) = None \<and>
      totalWatchedRef (resetProgress now st) = 0 \<and>
      lastKnownPositionRef (resetProgress now st) = 0 \<and>
      localProgress (resetProgress now st) = 0 \<and>
      skippedAhead (resetProgress now st) = False \<and>
      localStorage (resetProgress now st) =
        Some (Parsed \<lparr>ls_lastPosition = 0, ls_totalWatched = 0, ls_intervals = [],
                      ls_timestamp = now, ls_isCompleted = False\<rparr>))"
  by (simp add: resetProgress_def saveToLocalStorage_def Let_def)

theorem resetProgress_latch_witness:
  "wasFullyWatchedRef latchedTracker \<and> resetProgress 5 latchedTracker = latchedTracker \<and>
   intervalsRef (resetProgress 5 latchedTracker) = [\<lparr>start = 0, end' = 100\<rparr>] \<and>
   \<not> wasFullyWatchedRef playingTracker \<and>
   currentIntervalRef (resetProgress 5 playingTracker) = None \<and>
   lastKnownPositionRef (resetProgress 5 playingTracker) = 0"
proof -
  have l: "wasFullyWatchedRef latchedTracker" by (simp add: latchedTracker_def)
  have i: "intervalsRef latchedTracker = [\<lparr>start = 0, end' = 100\<rparr>]"
    by (simp add: latchedTracker_def)
  have n: "\<not> wasFullyWatchedRef playingTracker"
    by (simp add: playingTracker_def initialTracker_def)
  show ?thesis
    using resetProgress_latch[of latchedTracker 5] resetProgress_latch[of playingTracker 5] l i n
    by simp
qed

text \<open>
  Claim C10. A \<open>handleTimeUpdate(t)\<close> call made while the tracker is not playing, or while
  the duration is zero or undefined, changes nothing: the state after the call is the state
  before it, in every ref and state variable, in the local cache and in the trace of
  outgoing calls.
\<close>

theorem handleTimeUpdate_guard:
  assumes "\<not> isPlayingRef st \<or> \<not> truthy duration"
  shows "handleTimeUpdate duration now t st = st"
  using assms by (auto simp: handleTimeUpdate_def)

theorem handleTimeUpdate_guard_witness:
  "\<not> isPlayingRef latchedTracker \<and> \<not> truthy None \<and> \<not> truthy (Some 0) \<and>
   handleTimeUpdate (Some 100) 9000 50 latchedTracker = latchedTracker \<and>
   handleTimeUpdate None 9000 50 playingTracker = playingTracker \<and>
   handleTimeUpdate (Some 0) 9000 50 playingTracker = playingTracker"
proof -
  have p: "\<not> isPlayingRef latchedTracker" by (simp add: latchedTracker_def initialTracker_def)
  have n: "\<not> truthy None" "\<not> truthy (Some 0)" by (simp_all add: truthy_def)
  show ?thesis
    using handleTimeUpdate_guard[of latchedTracker "Some 100" 9000 50]
      handleTimeUpdate_guard[of playingTracker None 9000 50]
      handleTimeUpdate_guard[of playingTracker "Some 0" 9000 50] p n
    by simp
qed

subsection \<open>Claim about the start of a session\<close>

lemma loadProgress_local_Parsed:
  assumes "localStorage st = Some (Parsed cached)"
  shows "intervalsRef (loadProgress_local duration skipped st) = ls_intervals cached"
    "lastKnownPositionRef (loadProgress_local duration skipped st) = ls_lastPosition cached"
    "wasFullyWatchedRef (loadProgress_local duration skipped st) =
       completedLocally duration skipped cached"
  using assms
  by (auto simp: loadProgress_local_def Let_def split_beta calculateProgress_def
        completedLocally_def)

lemma loadProgress_local_None:
  assumes "localStorage st = None"
  shows "intervalsRef (loadProgress_local duration skipped st) = intervalsRef st"
    "lastKnownPositionRef (loadProgress_local duration skipped st) = lastKnownPositionRef st"
    "wasFullyWatchedRef (loadProgress_local duration skipped st) = wasFullyWatchedRef st"
  using assms by (simp_all add: loadProgress_local_def)

lemma useServerData_seeds:
  "intervalsRef (useServerData duration skipped remote st) = intervals remote"
  "lastKnownPositionRef (useServerData duration skipped remote st) = lastPosition remote"
  by (simp_all add: useServerData_def split_beta Let_def calculateProgress_frame)

lemma useServerData_latch:
  "wasFullyWatchedRef (useServerData duration skipped remote st) =
     (wasFullyWatchedRef st \<or> completesNow duration skipped (intervals remote))"
  by (simp add: useServerData_def split_beta Let_def calculateProgress_latch_after)

text \<open>
  Claim C4, as amended. At session start, when both a cached and a remote record exist, the
  cached record is chosen unconditionally if its completion latch is set, or if the
  percentage computed from its intervals at load sets the latch (at least 99.5 with a known
  duration and no skip flagged), even when the remote record has a later \<open>lastWatchedAt\<close>;
  otherwise the remote record is chosen if its \<open>lastWatchedAt\<close> is later than the cached
  timestamp, and the cached record if not. When only one record exists, that one is used;
  with none, intervals, position and latch stay as they are. The chosen record seeds the
  tracker's intervals and last position. A chosen cached record also seeds the latch: the
  latch is set exactly if the record's latch is set or the percentage computed from its
  intervals sets it. A remote record has no latch: when it is chosen, the latch is set
  exactly if the percentage computed from the remote intervals sets it or, with no cached
  record, if it was set before the load.
\<close>

theorem loadProgress_reconciles:
  "(localStorage st = None \<longrightarrow>
      (case response of
         Some remote \<Rightarrow>
           intervalsRef (loadProgress duration skipped response st) = intervals remote \<and>
           lastKnownPositionRef (loadProgress duration skipped response st) = lastPosition remote \<and>
           wasFullyWatchedRef (loadProgress duration skipped response st) =
             (wasFullyWatchedRef st \<or> completesNow duration skipped (intervals remote))
       | None \<Rightarrow>
           intervalsRef (loadProgress duration skipped response st) = intervalsRef st \<and>
           lastKnownPositionRef (loadProgress duration skipped response st) =
             lastKnownPositionRef st \<and>
           wasFullyWatchedRef (loadProgress duration skipped response st) =
             wasFullyWatchedRef st)) \<and>
   (\<forall>cached. localStorage st = Some (Parsed cached) \<longrightarrow>
      (case response of
         Some remote \<Rightarrow>
           if \<not> completedLocally duration skipped cached \<and>
              lastWatchedAt remote > ls_timestamp cached
           then intervalsRef (loadProgress duration skipped response st) = intervals remote \<and>
                lastKnownPositionRef (loadProgress duration skipped response st) =
                  lastPosition remote \<and>
                wasFullyWatchedRef (loadProgress duration skipped response st) =
                  completesNow duration skipped (intervals remote)
           else intervalsRef (loadProgress duration skipped response st) = ls_intervals cached \<and>
                lastKnownPositionRef (loadProgress duration skipped response st) =
                  ls_lastPosition cached \<and>
                wasFullyWatchedRef (loadProgress duration skipped response st) =
                  completedLocally duration skipped cached
       | None \<Rightarrow>
           intervalsRef (loadProgress duration skipped response st) = ls_intervals cached \<and>
           lastKnownPositionRef (loadProgress duration skipped response st) =
             ls_lastPosition cached \<and>
           wasFullyWatchedRef (loadProgress duration skipped response st) =
             completedLocally duration skipped cached))"
  by (auto simp: loadProgress_def loadProgress_server_def Let_def useServerData_seeds
        useServerData_latch loadProgress_local_Parsed loadProgress_local_None
        split: option.splits)

text \<open>The scenario of the cached record with the latch set and a later remote record with
  none: the cached record is kept.\<close>

theorem loadProgress_reconciles_witness:
  "localStorage ((initialTracker 0)\<lparr>localStorage := Some (Parsed completedRecord)\<rparr>) =
     Some (Parsed completedRecord) \<and>
   completedLocally (Some 100) False completedRecord \<and>
   lastWatchedAt remoteRecord > ls_timestamp completedRecord \<and>
   intervalsRef (loadProgress (Some 100) False (Some remoteRecord)
      ((initialTracker 0)\<lparr>localStorage := Some (Parsed completedRecord)\<rparr>)) =
     [\<lparr>start = 0, end' = 100\<rparr>] \<and>
   lastKnownPositionRef (loadProgress (Some 100) False (Some remoteRecord)
      ((initialTracker 0)\<lparr>localStorage := Some (Parsed completedRecord)\<rparr>)) = 100 \<and>
   wasFullyWatchedRef (loadProgress (Some 100) False (Some remoteRecord)
      ((initialTracker 0)\<lparr>localStorage := Some (Parsed completedRecord)\<rparr>))"
proof -
  let ?st = "(initialTracker 0)\<lparr>localStorage := Some (Parsed completedRecord)\<rparr>"
  have s: "localStorage ?st = Some (Parsed completedRecord)" by simp
  have c: "completedLocally (Some 100) False completedRecord"
    by (simp add: completedLocally_def completedRecord_def)
  have r: "lastWatchedAt remoteRecord > ls_timestamp completedRecord"
    by (simp add: remoteRecord_def completedRecord_def)
  have v: "ls_intervals completedRecord = [\<lparr>start = 0, end' = 100\<rparr>]"
    "ls_lastPosition completedRecord = 100"
    by (simp_all add: completedRecord_def)
  show ?thesis
    using loadProgress_reconciles[where st = ?st and response = "Some remoteRecord"
        and duration = "Some 100" and skipped = False] s c r v
    by simp
qed

text \<open>A later remote record of a full watch, chosen over a cached record of ten seconds,
  sets the latch through the percentage computed from its intervals.\<close>

lemma loadProgress_remote_sets_latch:
  "wasFullyWatchedRef (loadProgress (Some 100) False
      (Some (remoteRecord\<lparr>intervals := [\<lparr>start = 0, end' = 100\<rparr>]\<rparr>))
      ((initialTracker 0)\<lparr>localStorage :=
          Some (Parsed (cachedRecord\<lparr>ls_intervals := [\<lparr>start = 0, end' = 10\<rparr>]\<rparr>))\<rparr>))"
  by (simp add: loadProgress_def loadProgress_server_def loadProgress_local_def Let_def
        calculateProgress_def percentageOf_def totalWatchedOf_def mergedIntervals_def
        mergeStep_def validInterval_def MINIMUM_WATCH_TIME_def truthy_def initialTracker_def
        cachedRecord_def remoteRecord_def useServerData_def)

text \<open>
  A cached item that \<open>JSON.parse\<close> rejects keeps a remote record from being used: the
  second \<open>JSON.parse\<close>, in the continuation, throws as the first did.
\<close>

lemma loadProgress_malformed_cache:
  assumes "localStorage st = Some Malformed" "\<not> wasFullyWatchedRef st"
  shows "intervalsRef (loadProgress duration skipped (Some remote) st) = intervalsRef st \<and>
         lastKnownPositionRef (loadProgress duration skipped (Some remote) st) =
           lastKnownPositionRef st \<and>
         error (loadProgress duration skipped (Some remote) st) =
           Some ''Failed to load progress from server''"
  using assms by (simp add: loadProgress_def loadProgress_server_def loadProgress_local_def)

text \<open>
  Claim C4 as stated fails on a cached record of a full watch whose latch is not set: the
  percentage computed from its intervals at load sets the latch, so the remote record is not
  taken although its \<open>lastWatchedAt\<close> is later.
\<close>

theorem loadProgress_later_remote_counterexample:
  "\<not> ls_isCompleted cachedRecord \<and> lastWatchedAt remoteRecord > ls_timestamp cachedRecord \<and>
   intervalsRef (loadProgress (Some 100) False (Some remoteRecord)
       ((initialTracker 0)\<lparr>localStorage := Some (Parsed cachedRecord)\<rparr>)) =
     ls_intervals cachedRecord \<and>
   lastKnownPositionRef (loadProgress (Some 100) False (Some remoteRecord)
       ((initialTracker 0)\<lparr>localStorage := Some (Parsed cachedRecord)\<rparr>)) =
     ls_lastPosition cachedRecord \<and>
   ls_intervals cachedRecord \<noteq> intervals remoteRecord \<and>
   ls_lastPosition cachedRecord \<noteq> lastPosition remoteRecord"
  by (simp add: loadProgress_def loadProgress_server_def loadProgress_local_def Let_def
        calculateProgress_def percentageOf_def totalWatchedOf_def mergedIntervals_def
        mergeStep_def validInterval_def MINIMUM_WATCH_TIME_def truthy_def initialTracker_def
        cachedRecord_def remoteRecord_def useServerData_def)

end
